theory Spec2Isabelle
  imports Main "HOL-Library.Sublist"
begin

section \<open>The cloud database connection manager (class CloudDatabase)\<close>

text \<open>
  The class \<^verbatim>\<open>CloudDatabase\<close> (the part of \<^verbatim>\<open>src/main/main.ts\<close> from line 2630 on,
  imported there as \<^verbatim>\<open>./cloudDatabase\<close>) keeps a mysql2 connection pool, the configuration it was
  opened with, a flag that a reconnection is in flight and the handle of the heartbeat
  timer. Its methods are asynchronous: they await promises of the driver. The model is
  a state-passing one:
  \<^item> the four fields are a record, extended by the trace of the calls made to the
    outside world (driver, timers) and by counters that name new pools and timers;
  \<^item> a promise either never settles or settles after some milliseconds with a
    rejection (an error message) or a value; what the driver answers is a parameter,
    a function of the trace so far;
  \<^item> a method returns \<open>None\<close> when it awaits a promise that never settles, and
    otherwise its result (\<open>Inl\<close> the message of the thrown error) with the new state.
  Each method runs without other tasks interleaving, with one exception: the wait loop
  of \<^verbatim>\<open>ensureConnectionValid\<close>, which exists to observe another task. What the other
  tasks do to the manager during one sleep of that loop is the parameter \<open>others\<close>.
  The trace holds the calls of the task that is modelled; calls of the other tasks
  are in it only if \<open>others\<close> puts them there.
\<close>

subsection \<open>Strings and error messages\<close>

text \<open>A JavaScript string is a sequence of UTF-16 code units.\<close>

type_synonym jsstring = "nat list"

definition ascii :: "string \<Rightarrow> jsstring" where
  "ascii cs = map of_char cs"

text \<open>\<^verbatim>\<open>hay.includes(needle)\<close>\<close>

definition str_includes :: "jsstring \<Rightarrow> jsstring \<Rightarrow> bool" where
  "str_includes hay needle = sublist needle hay"

text \<open>The two code units of the word for "connection" (U+8FDE U+63A5).\<close>

definition lianjie :: jsstring where
  "lianjie = [0x8FDE, 0x63A5]"

text \<open>The message of \<^verbatim>\<open>ensureConnectionValid\<close> and \<^verbatim>\<open>ensureConnected\<close> when there
  is no pool: "MySQL not connected, configure the database connection first".\<close>

definition notConnectedMsg :: jsstring where
  "notConnectedMsg = ascii ''MySQL '' @
     [0x672A, 0x8FDE, 0x63A5, 0xFF0C, 0x8BF7, 0x5148, 0x914D, 0x7F6E,
      0x6570, 0x636E, 0x5E93, 0x8FDE, 0x63A5]"

text \<open>"The database connection is lost and cannot be re-established".\<close>

definition reconnectFailedMsg :: jsstring where
  "reconnectFailedMsg =
     [0x6570, 0x636E, 0x5E93, 0x8FDE, 0x63A5, 0x5DF2, 0x65AD, 0x5F00, 0xFF0C,
      0x65E0, 0x6CD5, 0x81EA, 0x52A8, 0x91CD, 0x8FDE]"

text \<open>The messages of the three timers raced against the driver, and the fallback
  message of the executor ("query failed").\<close>

definition acquireTimeoutMsg :: jsstring where
  "acquireTimeoutMsg = [0x83B7, 0x53D6, 0x8FDE, 0x63A5, 0x8D85, 0x65F6]"

definition queryTimeoutMsg :: jsstring where
  "queryTimeoutMsg = [0x67E5, 0x8BE2, 0x8D85, 0x65F6]"

definition heartbeatTimeoutMsg :: jsstring where
  "heartbeatTimeoutMsg = [0x5FC3, 0x8DF3, 0x68C0, 0x6D4B, 0x8D85, 0x65F6]"

definition queryFailedMsg :: jsstring where
  "queryFailedMsg = [0x67E5, 0x8BE2, 0x5931, 0x8D25]"

text \<open>The test of the catch block of \<^verbatim>\<open>executeQueryWithRetry\<close> on the message of the
  error.\<close>

definition isConnectionError :: "jsstring \<Rightarrow> bool" where
  "isConnectionError msg =
     (str_includes msg lianjie \<or>
      str_includes msg (ascii ''timeout'') \<or>
      str_includes msg (ascii ''ECONNRESET'') \<or>
      str_includes msg (ascii ''PROTOCOL_CONNECTION_LOST''))"

subsection \<open>Configuration, events, state\<close>

record MySQLConfig =
  host :: jsstring
  port :: int
  database :: jsstring
  user :: jsstring
  password :: jsstring

text \<open>The comparison written out in the condition of \<^verbatim>\<open>connect\<close>: the password is not
  compared.\<close>

definition sameTarget :: "MySQLConfig \<Rightarrow> MySQLConfig \<Rightarrow> bool" where
  "sameTarget a b =
     (host a = host b \<and> port a = port b \<and> database a = database b \<and> user a = user b)"

text \<open>Calls to the outside world, each with the pool or timer it concerns.
  \<open>Sleep ms\<close> is \<^verbatim>\<open>await new Promise(resolve => setTimeout(resolve, ms))\<close>,
  \<open>OpCall p\<close> the call of the caller's query function on pool \<open>p\<close>.\<close>

datatype event =
    CreatePool nat MySQLConfig
  | GetConnection nat
  | Query nat
  | Release nat
  | EndPool nat
  | SetInterval nat nat
  | ClearInterval nat
  | Sleep nat
  | OpCall nat

record manager =
  pool :: "nat option"
  config :: "MySQLConfig option"
  isReconnecting :: bool
  heartbeatInterval :: "nat option"
  trace :: "event list"
  nextPool :: nat
  nextTimer :: nat

definition HEARTBEAT_INTERVAL :: nat where
  "HEARTBEAT_INTERVAL = 60 * 1000"

text \<open>A new \<^verbatim>\<open>CloudDatabase\<close>. The trace has the newest event first.\<close>

definition initial :: manager where
  "initial = \<lparr>pool = None, config = None, isReconnecting = False,
     heartbeatInterval = None, trace = [], nextPool = 0, nextTimer = 0\<rparr>"

subsection \<open>Promises and the environment\<close>

datatype 'a promise = Never | Settles nat "jsstring + 'a"

text \<open>\<^verbatim>\<open>await p\<close>: no result when the promise never settles.\<close>

definition await :: "'a promise \<Rightarrow> (jsstring + 'a) option" where
  "await p = (case p of Never \<Rightarrow> None | Settles t r \<Rightarrow> Some r)"

text \<open>\<^verbatim>\<open>await Promise.race([p, new Promise((_, reject) => setTimeout(() => reject(new
  Error(msg)), ms))])\<close>: the timer wins unless the promise settles before it.\<close>

definition raceTimeout :: "nat \<Rightarrow> jsstring \<Rightarrow> 'a promise \<Rightarrow> jsstring + 'a" where
  "raceTimeout ms msg p =
     (case p of Never \<Rightarrow> Inl msg | Settles t r \<Rightarrow> if t < ms then r else Inl msg)"

text \<open>The driver, as seen from the manager: what \<^verbatim>\<open>pool.getConnection()\<close>,
  \<^verbatim>\<open>connection.query('SELECT 1')\<close> and \<^verbatim>\<open>pool.end()\<close> answer on a pool after a given
  trace; and what the other tasks do to the manager during a sleep of the wait loop.\<close>

record env =
  getConnection :: "event list \<Rightarrow> nat \<Rightarrow> unit promise"
  selectOne :: "event list \<Rightarrow> nat \<Rightarrow> unit promise"
  poolEnd :: "event list \<Rightarrow> nat \<Rightarrow> unit promise"
  others :: "manager \<Rightarrow> manager"

text \<open>A query function passed to \<^verbatim>\<open>executeQueryWithRetry\<close>: its promise on a pool after
  a given trace.\<close>

type_synonym 'a operation = "event list \<Rightarrow> nat \<Rightarrow> 'a promise"

definition emit :: "event \<Rightarrow> manager \<Rightarrow> manager" where
  "emit e s = s\<lparr>trace := e # trace s\<rparr>"

subsection \<open>Heartbeat timer\<close>

text \<open>\<^verbatim>\<open>stopHeartbeat\<close> and \<^verbatim>\<open>startHeartbeat\<close> (lines 2726 to 2744).\<close>

definition stopHeartbeat :: "manager \<Rightarrow> manager" where
  "stopHeartbeat s =
     (case heartbeatInterval s of
        Some t \<Rightarrow> (emit (ClearInterval t) s)\<lparr>heartbeatInterval := None\<rparr>
      | None \<Rightarrow> s)"

definition startHeartbeat :: "manager \<Rightarrow> manager" where
  "startHeartbeat s =
     (let s1 = stopHeartbeat s; t = nextTimer s1
      in (emit (SetInterval t HEARTBEAT_INTERVAL) s1)
           \<lparr>heartbeatInterval := Some t, nextTimer := Suc t\<rparr>)"

subsection \<open>connect and disconnect\<close>

text \<open>\<^verbatim>\<open>try { await pool.end(); } catch (e) { }\<close>: the outcome is ignored, but the
  call is awaited.\<close>

definition endPoolAwait :: "env \<Rightarrow> nat \<Rightarrow> manager \<Rightarrow> manager option" where
  "endPoolAwait env p s =
     (case await (poolEnd env (trace s) p) of
        None \<Rightarrow> None
      | Some _ \<Rightarrow> Some (emit (EndPool p) s))"

text \<open>\<^verbatim>\<open>if (this.pool) { try { await this.pool.end(); } catch (e) { } this.pool = null; }\<close>\<close>

definition closePool :: "env \<Rightarrow> manager \<Rightarrow> manager option" where
  "closePool env s =
     (case pool s of
        None \<Rightarrow> Some s
      | Some p \<Rightarrow>
          (case endPoolAwait env p s of
             None \<Rightarrow> None
           | Some s1 \<Rightarrow> Some (s1\<lparr>pool := None\<rparr>)))"

text \<open>The second half of \<^verbatim>\<open>connect\<close> (lines 2675 to 2711): store the configuration, create the pool, test it
  by acquiring and releasing one connection; start the heartbeat on success, close
  the pool and rethrow on failure.\<close>

definition openPool :: "env \<Rightarrow> MySQLConfig \<Rightarrow> manager \<Rightarrow> ((jsstring + unit) \<times> manager) option" where
  "openPool env cfg s =
     (let p = nextPool s;
          s1 = (emit (CreatePool p cfg) s)\<lparr>config := Some cfg, pool := Some p, nextPool := Suc p\<rparr>;
          s2 = emit (GetConnection p) s1
      in case await (getConnection env (trace s1) p) of
           None \<Rightarrow> None
         | Some (Inr _) \<Rightarrow> Some (Inr (), startHeartbeat (emit (Release p) s2))
         | Some (Inl e) \<Rightarrow>
             (case closePool env s2 of
                None \<Rightarrow> None
              | Some s3 \<Rightarrow> Some (Inl e, s3)))"

text \<open>\<^verbatim>\<open>connect\<close> (lines 2648 to 2712): with a pool and a stored configuration for the
  same target, test the pool and return, or close it when the test fails; in every
  other case go on to the second half.\<close>

definition connect :: "env \<Rightarrow> MySQLConfig \<Rightarrow> manager \<Rightarrow> ((jsstring + unit) \<times> manager) option" where
  "connect env cfg s =
     (case (pool s, config s) of
        (Some p, Some c) \<Rightarrow>
          if sameTarget c cfg then
            (let s1 = emit (GetConnection p) s
             in case await (getConnection env (trace s) p) of
                  None \<Rightarrow> None
                | Some (Inr _) \<Rightarrow> Some (Inr (), emit (Release p) s1)
                | Some (Inl e) \<Rightarrow>
                    (case closePool env s1 of
                       None \<Rightarrow> None
                     | Some s2 \<Rightarrow> openPool env cfg s2))
          else openPool env cfg s
      | _ \<Rightarrow> openPool env cfg s)"

text \<open>\<^verbatim>\<open>disconnect\<close> (lines 2714 to 2723) does not await \<^verbatim>\<open>pool.end()\<close>.\<close>

definition disconnect :: "manager \<Rightarrow> manager" where
  "disconnect s =
     (let s1 = stopHeartbeat s;
          s2 = (case pool s1 of
                  Some p \<Rightarrow> (emit (EndPool p) s1)\<lparr>pool := None\<rparr>
                | None \<Rightarrow> s1)
      in s2\<lparr>config := None\<rparr>)"

subsection \<open>The heartbeat tick\<close>

text \<open>The try block of \<^verbatim>\<open>performHeartbeat\<close> (lines 2754 to 2767): the acquisition is raced against a timer
  of 5000 ms, the query is awaited as it is, and a connection whose query failed is
  not released.\<close>

definition heartbeatProbe :: "env \<Rightarrow> nat \<Rightarrow> manager \<Rightarrow> ((jsstring + unit) \<times> manager) option" where
  "heartbeatProbe env p s =
     (let s1 = emit (GetConnection p) s
      in case raceTimeout 5000 heartbeatTimeoutMsg (getConnection env (trace s) p) of
           Inl e \<Rightarrow> Some (Inl e, s1)
         | Inr _ \<Rightarrow>
             (case await (selectOne env (trace s1) p) of
                None \<Rightarrow> None
              | Some (Inl e) \<Rightarrow> Some (Inl e, emit (Query p) s1)
              | Some (Inr _) \<Rightarrow> Some (Inr (), emit (Release p) (emit (Query p) s1))))"

text \<open>The catch block of \<^verbatim>\<open>performHeartbeat\<close> (lines 2768 to 2796), entered with the flag clear and a stored
  configuration: close the pool, connect again, stop the heartbeat if that fails,
  clear the flag.\<close>

definition heartbeatReconnect :: "env \<Rightarrow> MySQLConfig \<Rightarrow> manager \<Rightarrow> manager option" where
  "heartbeatReconnect env c s =
     (case closePool env (s\<lparr>isReconnecting := True\<rparr>) of
        None \<Rightarrow> None
      | Some s1 \<Rightarrow>
          (case connect env c s1 of
             None \<Rightarrow> None
           | Some (Inr _, s2) \<Rightarrow> Some (s2\<lparr>isReconnecting := False\<rparr>)
           | Some (Inl _, s2) \<Rightarrow> Some ((stopHeartbeat s2)\<lparr>isReconnecting := False\<rparr>)))"

text \<open>\<^verbatim>\<open>performHeartbeat\<close> (lines 2747 to 2797). It catches every error, so it has no
  result but the state.\<close>

definition performHeartbeat :: "env \<Rightarrow> manager \<Rightarrow> manager option" where
  "performHeartbeat env s =
     (case (pool s, config s) of
        (Some p, Some c) \<Rightarrow>
          (case heartbeatProbe env p s of
             None \<Rightarrow> None
           | Some (Inr _, s1) \<Rightarrow> Some s1
           | Some (Inl _, s1) \<Rightarrow>
               if \<not> isReconnecting s1 then heartbeatReconnect env c s1 else Some s1)
      | _ \<Rightarrow> Some (stopHeartbeat s))"

subsection \<open>ensureConnectionValid\<close>

text \<open>The try block (lines 2806 to 2823): acquisition raced against 2000 ms, \<^verbatim>\<open>SELECT 1\<close> raced against
  3000 ms, release.\<close>

definition probe :: "env \<Rightarrow> nat \<Rightarrow> manager \<Rightarrow> (jsstring + unit) \<times> manager" where
  "probe env p s =
     (let s1 = emit (GetConnection p) s
      in case raceTimeout 2000 acquireTimeoutMsg (getConnection env (trace s) p) of
           Inl e \<Rightarrow> (Inl e, s1)
         | Inr _ \<Rightarrow>
             (let s2 = emit (Query p) s1
              in case raceTimeout 3000 queryTimeoutMsg (selectOne env (trace s1) p) of
                   Inl e \<Rightarrow> (Inl e, s2)
                 | Inr _ \<Rightarrow> (Inr (), emit (Release p) s2)))"

text \<open>\<^verbatim>\<open>while (this.isReconnecting && retries < 20) { await sleep(100); retries++; }\<close>
  The result is the final value of the counter and the state.\<close>

function waitLoop :: "env \<Rightarrow> nat \<Rightarrow> manager \<Rightarrow> nat \<times> manager" where
  "waitLoop env retries s =
     (if isReconnecting s \<and> retries < 20
      then waitLoop env (Suc retries) (others env (emit (Sleep 100) s))
      else (retries, s))"
  by pat_completeness auto
termination
  by (relation "measure (\<lambda>(env, retries, s). 20 - retries)") auto

text \<open>From \<^verbatim>\<open>this.isReconnecting = true\<close> to the end of the method (lines 2840 to
  2870). The error of a
  failed \<^verbatim>\<open>connect\<close> is replaced by a fixed message; the flag is cleared in the
  \<^verbatim>\<open>finally\<close> block.\<close>

definition reconnect :: "env \<Rightarrow> manager \<Rightarrow> ((jsstring + nat) \<times> manager) option" where
  "reconnect env s =
     (case closePool env (stopHeartbeat (s\<lparr>isReconnecting := True\<rparr>)) of
        None \<Rightarrow> None
      | Some s1 \<Rightarrow>
          (case (case config s1 of
                   Some c \<Rightarrow> connect env c s1
                 | None \<Rightarrow> Some (Inr (), s1)) of
             None \<Rightarrow> None
           | Some (Inl _, s2) \<Rightarrow> Some (Inl reconnectFailedMsg, s2\<lparr>isReconnecting := False\<rparr>)
           | Some (Inr _, s2) \<Rightarrow>
               (let s3 = s2\<lparr>isReconnecting := False\<rparr>
                in case pool s3 of
                     None \<Rightarrow> Some (Inl notConnectedMsg, s3)
                   | Some q \<Rightarrow> Some (Inr q, s3))))"

text \<open>\<^verbatim>\<open>ensureConnectionValid\<close> (lines 2800 to 2872). After a failed probe with the
  flag set: wait, then return the pool if there are a pool and a configuration, and
  otherwise go on to the reconnection like a caller that found the flag clear.\<close>

definition ensureConnectionValid :: "env \<Rightarrow> manager \<Rightarrow> ((jsstring + nat) \<times> manager) option" where
  "ensureConnectionValid env s =
     (case (pool s, config s) of
        (Some p, Some c) \<Rightarrow>
          (case probe env p s of
             (Inr _, s1) \<Rightarrow> Some (Inr p, s1)
           | (Inl _, s1) \<Rightarrow>
               if isReconnecting s1 then
                 (let w = snd (waitLoop env 0 s1)
                  in case (pool w, config w) of
                       (Some q, Some _) \<Rightarrow> Some (Inr q, w)
                     | _ \<Rightarrow> reconnect env w)
               else reconnect env s1)
      | _ \<Rightarrow> Some (Inl notConnectedMsg, s))"

subsection \<open>executeQueryWithRetry\<close>

text \<open>The try block of the loop body: validate, then call the query function on the
  pool.\<close>

definition attempt :: "env \<Rightarrow> 'a operation \<Rightarrow> manager \<Rightarrow> ((jsstring + 'a) \<times> manager) option" where
  "attempt env op s =
     (case ensureConnectionValid env s of
        None \<Rightarrow> None
      | Some (Inl e, s1) \<Rightarrow> Some (Inl e, s1)
      | Some (Inr p, s1) \<Rightarrow>
          (case await (op (trace s1) p) of
             None \<Rightarrow> None
           | Some r \<Rightarrow> Some (r, emit (OpCall p) s1)))"

text \<open>\<^verbatim>\<open>if (this.pool) { try { this.stopHeartbeat(); await this.pool.end(); } catch (e) { }
  this.pool = null; }\<close>\<close>

definition forceClose :: "env \<Rightarrow> manager \<Rightarrow> manager option" where
  "forceClose env s =
     (case pool s of
        None \<Rightarrow> Some s
      | Some p \<Rightarrow>
          (case endPoolAwait env p (stopHeartbeat s) of
             None \<Rightarrow> None
           | Some s1 \<Rightarrow> Some (s1\<lparr>pool := None\<rparr>)))"

text \<open>The branch of the catch block for a connection error: close the pool; unless
  this was the last round or there is no configuration, sleep 500 ms and connect
  again, ignoring a failure. \<open>again\<close> is \<^verbatim>\<open>i < retries\<close>.\<close>

definition recover :: "env \<Rightarrow> bool \<Rightarrow> manager \<Rightarrow> manager option" where
  "recover env again s =
     (case forceClose env s of
        None \<Rightarrow> None
      | Some s1 \<Rightarrow>
          (case config s1 of
             Some c \<Rightarrow>
               if again then
                 (case connect env c (emit (Sleep 500) s1) of
                    None \<Rightarrow> None
                  | Some (_, s2) \<Rightarrow> Some s2)
               else Some s1
           | None \<Rightarrow> Some s1))"

text \<open>\<^verbatim>\<open>for (let i = 0; i <= retries; i++) { ... } throw lastError || new Error(...)\<close>
  (lines 2879 to 2922). An error that is not a connection error is rethrown from the
  catch block.\<close>

function executeLoop ::
  "env \<Rightarrow> 'a operation \<Rightarrow> int \<Rightarrow> int \<Rightarrow> jsstring option \<Rightarrow> manager \<Rightarrow> ((jsstring + 'a) \<times> manager) option" where
  "executeLoop env op retries i lastError s =
     (if i \<le> retries then
        (case attempt env op s of
           None \<Rightarrow> None
         | Some (Inr v, s1) \<Rightarrow> Some (Inr v, s1)
         | Some (Inl e, s1) \<Rightarrow>
             if isConnectionError e then
               (case recover env (i < retries) s1 of
                  None \<Rightarrow> None
                | Some s2 \<Rightarrow> executeLoop env op retries (i + 1) (Some e) s2)
             else Some (Inl e, s1))
      else Some (Inl (case lastError of Some e \<Rightarrow> e | None \<Rightarrow> queryFailedMsg), s))"
  by pat_completeness auto
termination
  by (relation "measure (\<lambda>(env, op, retries, i, lastError, s). nat (retries + 1 - i))") auto

definition executeQueryWithRetry ::
  "env \<Rightarrow> 'a operation \<Rightarrow> int \<Rightarrow> manager \<Rightarrow> ((jsstring + 'a) \<times> manager) option" where
  "executeQueryWithRetry env op retries s = executeLoop env op retries 0 None s"

text \<open>Every caller in the class leaves \<^verbatim>\<open>retries\<close> at its default, 1.\<close>

definition execute :: "env \<Rightarrow> 'a operation \<Rightarrow> manager \<Rightarrow> ((jsstring + 'a) \<times> manager) option" where
  "execute env op s = executeQueryWithRetry env op 1 s"

subsection \<open>Reachable states and what the trace says\<close>

text \<open>The states of a manager between calls of its methods: a new manager, and the
  state after a call that returned (or threw). The timer calls \<^verbatim>\<open>performHeartbeat\<close>
  only while it is set. The value a query function returns has no influence on the
  state, so the query functions here return nothing.\<close>

inductive reachable :: "env \<Rightarrow> manager \<Rightarrow> bool" for env :: env where
  r_initial: "reachable env initial"
| r_connect: "reachable env s \<Longrightarrow> connect env cfg s = Some (r, s') \<Longrightarrow> reachable env s'"
| r_disconnect: "reachable env s \<Longrightarrow> reachable env (disconnect s)"
| r_tick: "reachable env s \<Longrightarrow> heartbeatInterval s \<noteq> None \<Longrightarrow>
     performHeartbeat env s = Some s' \<Longrightarrow> reachable env s'"
| r_execute: "reachable env s \<Longrightarrow>
     executeQueryWithRetry env (op :: unit operation) retries s = Some (r', s') \<Longrightarrow>
     reachable env s'"

text \<open>The pools created and not ended, and the calls of the query function, in a
  trace.\<close>

definition openPools :: "event list \<Rightarrow> nat list" where
  "openPools tr =
     filter (\<lambda>p. EndPool p \<notin> set tr) (remdups (concat (map (\<lambda>e. case e of CreatePool p _ \<Rightarrow> [p] | _ \<Rightarrow> []) tr)))"

definition opCalls :: "event list \<Rightarrow> nat" where
  "opCalls tr = length (filter (\<lambda>e. case e of OpCall _ \<Rightarrow> True | _ \<Rightarrow> False) tr)"

subsection \<open>Consistency of the fields\<close>

text \<open>A pool in the field has a heartbeat timer and a configuration beside it; and,
  between calls, no reconnection is in flight.\<close>

definition wired :: "manager \<Rightarrow> bool" where
  "wired s = (pool s \<noteq> None \<longrightarrow> heartbeatInterval s \<noteq> None \<and> config s \<noteq> None)"

definition settled :: "manager \<Rightarrow> bool" where
  "settled s = (wired s \<and> \<not> isReconnecting s)"

subsection \<open>Scenarios\<close>

text \<open>Two configurations for different hosts, and a third for the host of the first
  with another password.\<close>

definition cfgA :: MySQLConfig where
  "cfgA = \<lparr>host = ascii ''db.example.com'', port = 3306, database = ascii ''notes'',
     user = ascii ''u'', password = ascii ''p''\<rparr>"

definition cfgB :: MySQLConfig where
  "cfgB = \<lparr>host = ascii ''db2.example.com'', port = 3306, database = ascii ''notes'',
     user = ascii ''u'', password = ascii ''p''\<rparr>"

definition cfgA2 :: MySQLConfig where
  "cfgA2 = \<lparr>host = ascii ''db.example.com'', port = 3306, database = ascii ''notes'',
     user = ascii ''u'', password = ascii ''q''\<rparr>"

definition refusedMsg :: jsstring where
  "refusedMsg = ascii ''connect ECONNREFUSED''"

definition resetMsg :: jsstring where
  "resetMsg = ascii ''read ECONNRESET''"

definition duplicateMsg :: jsstring where
  "duplicateMsg = ascii ''Duplicate entry''"

text \<open>A server that answers every call within 5 ms.\<close>

definition envUp :: env where
  "envUp = \<lparr>getConnection = (\<lambda>tr p. Settles 5 (Inr ())),
     selectOne = (\<lambda>tr p. Settles 5 (Inr ())),
     poolEnd = (\<lambda>tr p. Settles 5 (Inr ())),
     others = (\<lambda>s. s)\<rparr>"

text \<open>Only the first pool created reaches its server.\<close>

definition envFirstOnly :: env where
  "envFirstOnly = \<lparr>getConnection = (\<lambda>tr p. if p = 0 then Settles 5 (Inr ()) else Settles 5 (Inl refusedMsg)),
     selectOne = (\<lambda>tr p. Settles 5 (Inr ())),
     poolEnd = (\<lambda>tr p. Settles 5 (Inr ())),
     others = (\<lambda>s. s)\<rparr>"

text \<open>The manager after \<^verbatim>\<open>connect(cfgA)\<close> on a new instance, when the server answers.\<close>

definition connectedA :: manager where
  "connectedA = \<lparr>pool = Some 0, config = Some cfgA, isReconnecting = False,
     heartbeatInterval = Some 0,
     trace = [SetInterval 0 60000, Release 0, GetConnection 0, CreatePool 0 cfgA],
     nextPool = 1, nextTimer = 1\<rparr>"

text \<open>The manager after a \<^verbatim>\<open>connect(cfgB)\<close> on \<open>connectedA\<close> whose new pool did not
  reach its server.\<close>

definition failedB :: manager where
  "failedB = \<lparr>pool = None, config = Some cfgB, isReconnecting = False,
     heartbeatInterval = Some 0,
     trace = [EndPool 1, GetConnection 1, CreatePool 1 cfgB,
       SetInterval 0 60000, Release 0, GetConnection 0, CreatePool 0 cfgA],
     nextPool = 2, nextTimer = 1\<rparr>"

text \<open>The manager after a second \<^verbatim>\<open>connect\<close> on \<open>connectedA\<close>, for the same target
  (\<open>cfgA2\<close>) and for another (\<open>cfgB\<close>), when the server answers.\<close>

definition reusedA :: manager where
  "reusedA = \<lparr>pool = Some 0, config = Some cfgA, isReconnecting = False,
     heartbeatInterval = Some 0,
     trace = [Release 0, GetConnection 0,
       SetInterval 0 60000, Release 0, GetConnection 0, CreatePool 0 cfgA],
     nextPool = 1, nextTimer = 1\<rparr>"

definition replacedAB :: manager where
  "replacedAB = \<lparr>pool = Some 1, config = Some cfgB, isReconnecting = False,
     heartbeatInterval = Some 1,
     trace = [SetInterval 1 60000, ClearInterval 0, Release 1, GetConnection 1, CreatePool 1 cfgB,
       SetInterval 0 60000, Release 0, GetConnection 0, CreatePool 0 cfgA],
     nextPool = 2, nextTimer = 2\<rparr>"

text \<open>Two query functions: one rejected with a duplicate-key error, one rejected with
  a connection reset on its first call and answering 7 afterwards. And the states of
  the second one's run on \<open>connectedA\<close>: after the first validation, after the
  recovery, after the second validation.\<close>

definition opDuplicate :: "nat operation" where
  "opDuplicate = (\<lambda>tr p. Settles 5 (Inl duplicateMsg))"


definition validatedA :: manager where
  "validatedA = connectedA\<lparr>trace := Release 0 # Query 0 # GetConnection 0 # trace connectedA\<rparr>"





text \<open>A server that refuses every connection, while another task's reconnection is in
  flight: during the first sleep of the wait loop that task gives up, having closed
  the old pool, opened and closed one of its own, and cleared the timer and the flag.
  \<open>reconnectingA\<close> is \<open>connectedA\<close> with that reconnection in flight; \<open>waitedA\<close> the
  state after the wait loop, \<open>gaveUpToo\<close> the state when \<^verbatim>\<open>ensureConnectionValid\<close> has
  thrown.\<close>

definition envOtherFailed :: env where
  "envOtherFailed = \<lparr>getConnection = (\<lambda>tr p. Settles 5 (Inl refusedMsg)),
     selectOne = (\<lambda>tr p. Settles 5 (Inl refusedMsg)),
     poolEnd = (\<lambda>tr p. Settles 5 (Inr ())),
     others = (\<lambda>s. s\<lparr>pool := None, isReconnecting := False, heartbeatInterval := None,
       nextPool := Suc (nextPool s)\<rparr>)\<rparr>"

definition reconnectingA :: manager where
  "reconnectingA = connectedA\<lparr>isReconnecting := True\<rparr>"

definition waitedA :: manager where
  "waitedA = \<lparr>pool = None, config = Some cfgA, isReconnecting = False,
     heartbeatInterval = None,
     trace = [Sleep 100, GetConnection 0] @ trace connectedA,
     nextPool = 2, nextTimer = 1\<rparr>"

definition gaveUpToo :: manager where
  "gaveUpToo = \<lparr>pool = None, config = Some cfgA, isReconnecting = False,
     heartbeatInterval = None,
     trace = [EndPool 2, GetConnection 2, CreatePool 2 cfgA, Sleep 100, GetConnection 0]
       @ trace connectedA,
     nextPool = 3, nextTimer = 1\<rparr>"





section \<open>Properties\<close>

subsection \<open>Fields after each step\<close>

declare waitLoop.simps [simp del]

declare executeLoop.simps [simp del]

lemma sameTarget_refl: "sameTarget c c"
  by (simp add: sameTarget_def)

lemma sameTarget_trans: "sameTarget a b \<Longrightarrow> sameTarget b c \<Longrightarrow> sameTarget a c"
  by (simp add: sameTarget_def)

lemma notConnected_isConnectionError: "isConnectionError notConnectedMsg"
  by (simp add: isConnectionError_def str_includes_def notConnectedMsg_def lianjie_def
      ascii_def sublist_code(3))

lemma reconnectFailed_isConnectionError: "isConnectionError reconnectFailedMsg"
  by (simp add: isConnectionError_def str_includes_def reconnectFailedMsg_def lianjie_def
      ascii_def sublist_code(3))

lemma emit_fields [simp]:
  "pool (emit e s) = pool s" "config (emit e s) = config s"
  "isReconnecting (emit e s) = isReconnecting s"
  "heartbeatInterval (emit e s) = heartbeatInterval s"
  "trace (emit e s) = e # trace s"
  "nextPool (emit e s) = nextPool s" "nextTimer (emit e s) = nextTimer s"
  by (simp_all add: emit_def)

lemma stopHeartbeat_fields [simp]:
  "pool (stopHeartbeat s) = pool s" "config (stopHeartbeat s) = config s"
  "isReconnecting (stopHeartbeat s) = isReconnecting s"
  "heartbeatInterval (stopHeartbeat s) = None"
  "nextPool (stopHeartbeat s) = nextPool s" "nextTimer (stopHeartbeat s) = nextTimer s"
  by (simp_all add: stopHeartbeat_def split: option.splits)

lemma startHeartbeat_fields [simp]:
  "pool (startHeartbeat s) = pool s" "config (startHeartbeat s) = config s"
  "isReconnecting (startHeartbeat s) = isReconnecting s"
  "heartbeatInterval (startHeartbeat s) = Some (nextTimer s)"
  "nextPool (startHeartbeat s) = nextPool s" "nextTimer (startHeartbeat s) = Suc (nextTimer s)"
  by (simp_all add: startHeartbeat_def Let_def)

lemma endPoolAwait_fields:
  "endPoolAwait env p s = Some s' \<Longrightarrow> s' = emit (EndPool p) s"
  by (simp add: endPoolAwait_def split: option.splits)

lemma closePool_fields:
  "closePool env s = Some s' \<Longrightarrow>
     pool s' = None \<and> config s' = config s \<and> isReconnecting s' = isReconnecting s \<and>
     heartbeatInterval s' = heartbeatInterval s"
  by (auto simp: closePool_def split: option.splits dest!: endPoolAwait_fields)

lemma openPool_fields:
  "openPool env cfg s = Some (r, s') \<Longrightarrow>
     config s' = Some cfg \<and> isReconnecting s' = isReconnecting s \<and>
     (case r of Inl e \<Rightarrow> pool s' = None
      | Inr u \<Rightarrow> pool s' = Some (nextPool s) \<and> heartbeatInterval s' \<noteq> None)"
  by (auto simp: openPool_def Let_def split: option.splits sum.splits dest!: closePool_fields)

lemma scenario_configs:
  "\<not> sameTarget cfgA cfgB" "sameTarget cfgA cfgA2" "cfgA \<noteq> cfgB"
  by (simp_all add: sameTarget_def cfgA_def cfgB_def cfgA2_def ascii_def)

lemma connect_fields:
  "connect env cfg s = Some (r, s') \<Longrightarrow>
     isReconnecting s' = isReconnecting s \<and>
     (case r of Inl e \<Rightarrow> pool s' = None \<and> config s' = Some cfg
      | Inr u \<Rightarrow> pool s' \<noteq> None \<and> (\<exists>c. config s' = Some c \<and> sameTarget c cfg))"
  by (auto simp: connect_def Let_def sameTarget_refl split: option.splits sum.splits if_splits
      dest!: closePool_fields openPool_fields)

lemma connect_wired: "wired s \<Longrightarrow> connect env cfg s = Some (r, s') \<Longrightarrow> wired s'"
  by (auto simp: connect_def wired_def Let_def split: option.splits sum.splits if_splits
      dest!: closePool_fields openPool_fields)

lemma probe_fields:
  "probe env p s = (r, s1) \<Longrightarrow>
     pool s1 = pool s \<and> config s1 = config s \<and> isReconnecting s1 = isReconnecting s \<and>
     heartbeatInterval s1 = heartbeatInterval s"
  by (auto simp: probe_def Let_def split: sum.splits)

lemma wired_update [simp]:
  "wired (s\<lparr>isReconnecting := b\<rparr>) = wired s" "wired (emit e s) = wired s"
  by (simp_all add: wired_def)

lemma reconnect_result:
  assumes "reconnect env s = Some (r, s')"
  shows "wired s' \<and> \<not> isReconnecting s' \<and>
     (case r of Inl e \<Rightarrow> isConnectionError e | Inr q \<Rightarrow> pool s' = Some q \<and> config s' \<noteq> None)"
proof -
  from assms obtain s1 where c: "closePool env (stopHeartbeat (s\<lparr>isReconnecting := True\<rparr>)) = Some s1"
    by (auto simp: reconnect_def split: option.splits)
  from closePool_fields [OF c] have s1: "pool s1 = None"
    by simp
  then have w1: "wired s1"
    by (simp add: wired_def)
  show ?thesis
  proof (cases "config s1")
    case None
    with assms c s1 show ?thesis
      by (auto simp: reconnect_def notConnected_isConnectionError wired_def)
  next
    case (Some cfg)
    with assms c obtain r0 s2 where k: "connect env cfg s1 = Some (r0, s2)"
      by (auto simp: reconnect_def split: option.splits)
    from connect_wired [OF w1 k] have w2: "wired s2" .
    from assms c Some k w2 connect_fields [OF k] show ?thesis
      by (auto simp: reconnect_def Let_def notConnected_isConnectionError
          reconnectFailed_isConnectionError split: sum.splits option.splits)
  qed
qed

lemma ensureConnectionValid_cases:
  assumes "ensureConnectionValid env s = Some (r, s')"
  obtains
    (absent) "pool s = None \<or> config s = None" "r = Inl notConnectedMsg" "s' = s"
  | (alive) p c u where "pool s = Some p" "config s = Some c" "probe env p s = (Inr u, s')" "r = Inr p"
  | (waited) p c e s1 q where "pool s = Some p" "config s = Some c" "probe env p s = (Inl e, s1)"
      "isReconnecting s" "s' = snd (waitLoop env 0 s1)" "pool s' = Some q" "config s' \<noteq> None" "r = Inr q"
  | (healed) p c e s1 where "pool s = Some p" "config s = Some c" "probe env p s = (Inl e, s1)"
      "reconnect env (if isReconnecting s then snd (waitLoop env 0 s1) else s1) = Some (r, s')"
      "isReconnecting s \<longrightarrow> pool (snd (waitLoop env 0 s1)) = None \<or> config (snd (waitLoop env 0 s1)) = None"
proof (cases "pool s")
  case None
  with assms have "r = Inl notConnectedMsg \<and> s' = s"
    by (auto simp: ensureConnectionValid_def)
  with None show ?thesis
    by (intro absent) simp_all
next
  case p: (Some p)
  show ?thesis
  proof (cases "config s")
    case None
    with assms p have "r = Inl notConnectedMsg \<and> s' = s"
      by (auto simp: ensureConnectionValid_def)
    with None show ?thesis
      by (intro absent) simp_all
  next
    case c: (Some c)
    obtain r1 s1 where pr: "probe env p s = (r1, s1)"
      by (cases "probe env p s")
    from probe_fields [OF pr] have f: "isReconnecting s1 = isReconnecting s"
      by simp
    show ?thesis
    proof (cases r1)
      case (Inr u)
      with assms p c pr have "r = Inr p \<and> s' = s1"
        by (auto simp: ensureConnectionValid_def)
      with p c pr Inr show ?thesis
        by (intro alive [of p c u]) simp_all
    next
      case (Inl e)
      show ?thesis
      proof (cases "isReconnecting s")
        case False
        with assms p c pr Inl f have "reconnect env s1 = Some (r, s')"
          by (simp add: ensureConnectionValid_def)
        with p c pr Inl False show ?thesis
          by (intro healed [of p c e s1]) simp_all
      next
        case True
        let ?w = "snd (waitLoop env 0 s1)"
        show ?thesis
        proof (cases "pool ?w \<noteq> None \<and> config ?w \<noteq> None")
          case True
          then obtain q where q: "pool ?w = Some q" and cw: "config ?w \<noteq> None"
            by auto
          with assms p c pr Inl f \<open>isReconnecting s\<close> have "r = Inr q \<and> s' = ?w"
            by (auto simp: ensureConnectionValid_def Let_def)
          with p c pr Inl \<open>isReconnecting s\<close> q cw show ?thesis
            by (intro waited [of p c e s1 q]) simp_all
        next
          case False
          with assms p c pr Inl f \<open>isReconnecting s\<close> have "reconnect env ?w = Some (r, s')"
            by (auto simp: ensureConnectionValid_def Let_def split: option.splits)
          with p c pr Inl \<open>isReconnecting s\<close> False show ?thesis
            by (intro healed [of p c e s1]) auto
        qed
      qed
    qed
  qed
qed

lemma ensureConnectionValid_result:
  assumes "ensureConnectionValid env s = Some (r, s')"
  shows "case r of Inl e \<Rightarrow> isConnectionError e | Inr q \<Rightarrow> pool s' = Some q \<and> config s' \<noteq> None"
  using assms
proof (cases rule: ensureConnectionValid_cases)
  case absent
  then show ?thesis by (simp add: notConnected_isConnectionError)
next
  case (alive p c u)
  with probe_fields [OF alive(3)] show ?thesis by simp
next
  case (waited p c e s1 q)
  then show ?thesis by simp
next
  case (healed p c e s1)
  from reconnect_result [OF healed(4)] show ?thesis by simp
qed

lemma ensureConnectionValid_inv:
  assumes "ensureConnectionValid env s = Some (r, s')" and "wired s" and "\<not> isReconnecting s"
  shows "wired s' \<and> \<not> isReconnecting s'"
  using assms(1)
proof (cases rule: ensureConnectionValid_cases)
  case absent
  with assms show ?thesis by simp
next
  case (alive p c u)
  with probe_fields [OF alive(3)] assms show ?thesis by (simp add: wired_def)
next
  case (waited p c e s1 q)
  with assms show ?thesis by simp
next
  case (healed p c e s1)
  from reconnect_result [OF healed(4)] show ?thesis by simp
qed

lemma attempt_inv:
  assumes "attempt env op s = Some (r, s')" and "settled s"
  shows "settled s'"
proof -
  from assms(1) obtain r1 s1 where e: "ensureConnectionValid env s = Some (r1, s1)"
    by (auto simp: attempt_def split: option.splits)
  from ensureConnectionValid_inv [OF e] assms(2) have "settled s1"
    by (simp add: settled_def)
  with assms(1) e show ?thesis
    by (auto simp: attempt_def settled_def split: option.splits sum.splits)
qed

lemma forceClose_fields:
  "forceClose env s = Some s' \<Longrightarrow>
     pool s' = None \<and> config s' = config s \<and> isReconnecting s' = isReconnecting s"
  by (auto simp: forceClose_def split: option.splits dest!: endPoolAwait_fields)

lemma recover_inv:
  assumes "recover env again s = Some s'" and "\<not> isReconnecting s"
  shows "settled s'"
proof -
  from assms(1) obtain s1 where f: "forceClose env s = Some s1"
    by (auto simp: recover_def split: option.splits)
  from forceClose_fields [OF f] assms(2) have s1: "wired s1" "\<not> isReconnecting s1"
    by (simp_all add: wired_def)
  show ?thesis
  proof (cases "again \<and> config s1 \<noteq> None")
    case False
    with assms(1) f s1 show ?thesis
      by (auto simp: recover_def settled_def split: option.splits)
  next
    case True
    then obtain c where c: "config s1 = Some c"
      by auto
    with assms(1) f True obtain r2 where k: "connect env c (emit (Sleep 500) s1) = Some (r2, s')"
      by (auto simp: recover_def split: option.splits)
    from connect_wired [OF _ k] connect_fields [OF k] s1 show ?thesis
      by (simp add: settled_def)
  qed
qed

lemma executeLoop_inv:
  "executeLoop env op retries i lastError s = Some (r, s') \<Longrightarrow> settled s \<Longrightarrow> settled s'"
proof (induction env op retries i lastError s rule: executeLoop.induct)
  case (1 env op retries i lastError s)
  show ?case
  proof (cases "i \<le> retries")
    case False
    with "1.prems" show ?thesis
      by (simp add: executeLoop.simps)
  next
    case True
    with "1.prems"(1) obtain r1 s1 where a: "attempt env op s = Some (r1, s1)"
      by (auto simp: executeLoop.simps [of env op retries i] split: option.splits)
    from attempt_inv [OF a "1.prems"(2)] have s1: "settled s1" .
    show ?thesis
    proof (cases r1)
      case (Inr v)
      with "1.prems"(1) True a s1 show ?thesis
        by (simp add: executeLoop.simps [of env op retries i])
    next
      case (Inl e)
      show ?thesis
      proof (cases "isConnectionError e")
        case False
        with "1.prems"(1) True a Inl s1 show ?thesis
          by (simp add: executeLoop.simps [of env op retries i])
      next
        case ce: True
        with "1.prems"(1) True a Inl obtain s2 where
          rc: "recover env (i < retries) s1 = Some s2" and
          next_round: "executeLoop env op retries (i + 1) (Some e) s2 = Some (r, s')"
          by (auto simp: executeLoop.simps [of env op retries i] split: option.splits)
        from recover_inv [OF rc] s1 have "settled s2"
          by (simp add: settled_def)
        with "1.IH" [OF True a refl Inl ce rc next_round] show ?thesis
          by simp
      qed
    qed
  qed
qed

lemma heartbeatProbe_fields:
  "heartbeatProbe env p s = Some (r, s1) \<Longrightarrow>
     pool s1 = pool s \<and> config s1 = config s \<and> isReconnecting s1 = isReconnecting s \<and>
     heartbeatInterval s1 = heartbeatInterval s"
  by (auto simp: heartbeatProbe_def Let_def split: sum.splits option.splits)

lemma heartbeatReconnect_inv:
  assumes "heartbeatReconnect env c s = Some s'"
  shows "settled s'"
proof -
  from assms obtain s1 where c: "closePool env (s\<lparr>isReconnecting := True\<rparr>) = Some s1"
    by (auto simp: heartbeatReconnect_def split: option.splits)
  from closePool_fields [OF c] have w1: "wired s1"
    by (simp add: wired_def)
  from assms c obtain r2 s2 where k: "connect env c s1 = Some (r2, s2)"
    by (auto simp: heartbeatReconnect_def split: option.splits)
  from connect_wired [OF w1 k] have w2: "wired s2" .
  have w3: "wired (stopHeartbeat s2\<lparr>isReconnecting := False\<rparr>)" if "pool s2 = None"
    using that by (simp add: wired_def)
  from assms c k w2 w3 connect_fields [OF k] show ?thesis
    by (cases r2) (auto simp: heartbeatReconnect_def settled_def)
qed

lemma performHeartbeat_inv:
  assumes "performHeartbeat env s = Some s'" and "settled s"
  shows "settled s'"
proof (cases "pool s = None \<or> config s = None")
  case True
  with assms have "s' = stopHeartbeat s"
    by (auto simp: performHeartbeat_def split: option.splits)
  with True assms(2) show ?thesis
    by (auto simp: settled_def wired_def)
next
  case False
  then obtain p c where pc: "pool s = Some p" "config s = Some c"
    by auto
  with assms(1) obtain r1 s1 where h: "heartbeatProbe env p s = Some (r1, s1)"
    by (auto simp: performHeartbeat_def split: option.splits)
  from heartbeatProbe_fields [OF h] assms(2) have s1: "settled s1"
    by (simp add: settled_def wired_def)
  show ?thesis
  proof (cases r1)
    case (Inr u)
    with assms(1) pc h s1 show ?thesis
      by (simp add: performHeartbeat_def)
  next
    case (Inl e)
    with assms(1) pc h s1 have "heartbeatReconnect env c s1 = Some s'"
      by (simp add: performHeartbeat_def settled_def)
    then show ?thesis
      by (rule heartbeatReconnect_inv)
  qed
qed

lemma disconnect_inv: "settled s \<Longrightarrow> settled (disconnect s)"
  by (simp add: disconnect_def settled_def wired_def Let_def split: option.splits)

lemma reachable_settled: "reachable env s \<Longrightarrow> settled s"
proof (induction rule: reachable.induct)
  case r_initial
  show ?case
    by (simp add: settled_def wired_def initial_def)
next
  case (r_connect s cfg r s')
  from connect_wired [OF _ r_connect(2)] connect_fields [OF r_connect(2)] r_connect(3)
  show ?case
    by (simp add: settled_def)
next
  case (r_disconnect s)
  then show ?case
    by (simp add: disconnect_inv)
next
  case (r_tick s s')
  from performHeartbeat_inv [OF r_tick(3) r_tick(4)] show ?case .
next
  case (r_execute s op retries r' s')
  from executeLoop_inv [OF r_execute(2) [unfolded executeQueryWithRetry_def] r_execute(3)]
  show ?case .
qed

lemma connect_initial_up: "connect envUp cfgA initial = Some (Inr (), connectedA)"
  by (simp add: connect_def openPool_def initial_def envUp_def await_def Let_def
      startHeartbeat_def stopHeartbeat_def emit_def connectedA_def HEARTBEAT_INTERVAL_def)


lemma connect_cfgB_fails: "connect envFirstOnly cfgB connectedA = Some (Inl refusedMsg, failedB)"
  by (simp add: connect_def openPool_def closePool_def endPoolAwait_def envFirstOnly_def
      await_def Let_def emit_def connectedA_def failedB_def scenario_configs)

subsection \<open>A failed connect keeps the configuration it was given\<close>

text \<open>
  Claim C10. \<^verbatim>\<open>connect\<close> is not atomic on error: when \<^verbatim>\<open>connect(config)\<close> throws (the
  test of the new pool failed), the pool has been closed and the field is null, but
  the stored configuration is the one just attempted, whatever was stored before.
\<close>

theorem connect_failure_keeps_new_config:
  "connect env cfg s = Some (Inl e, s') \<Longrightarrow> pool s' = None \<and> config s' = Some cfg"
  by (auto dest!: connect_fields)

theorem connect_failure_keeps_new_config_witness:
  "connect envFirstOnly cfgB connectedA = Some (Inl refusedMsg, failedB) \<and>
   config connectedA = Some cfgA \<and> cfgA \<noteq> cfgB \<and>
   pool failedB = None \<and> config failedB = Some cfgB"
  using connect_failure_keeps_new_config [OF connect_cfgB_fails] connect_cfgB_fails
    scenario_configs(3)
  by (simp add: connectedA_def)

subsection \<open>A second connect to the same target\<close>

text \<open>
  Claim C6. After a \<^verbatim>\<open>connect(c1)\<close> that succeeded, a \<^verbatim>\<open>connect(c2)\<close> for the same
  host, port, database and user (the password is not compared) acquires and releases
  one connection of the existing pool and, when that succeeds, returns: the pool is
  the same and nothing else has changed, so no pool has been created.
\<close>

theorem connect_same_target_reuses_pool:
  assumes "connect env c1 s0 = Some (Inr u, s1)" and "sameTarget c1 c2"
  shows "\<exists>p. pool s1 = Some p \<and>
    (await (getConnection env (trace s1) p) = Some (Inr ()) \<longrightarrow>
     connect env c2 s1 = Some (Inr (), emit (Release p) (emit (GetConnection p) s1)))"
proof -
  from connect_fields [OF assms(1)]
  obtain p c where p: "pool s1 = Some p" and c: "config s1 = Some c" "sameTarget c c1"
    by auto
  from c(2) assms(2) have "sameTarget c c2"
    by (rule sameTarget_trans)
  with p c(1) show ?thesis
    by (simp add: connect_def Let_def)
qed

theorem connect_same_target_reuses_pool_witness:
  "connect envUp cfgA initial = Some (Inr (), connectedA) \<and> sameTarget cfgA cfgA2 \<and>
   await (getConnection envUp (trace connectedA) 0) = Some (Inr ()) \<and>
   connect envUp cfgA2 connectedA = Some (Inr (), reusedA) \<and>
   pool reusedA = pool connectedA \<and> nextPool reusedA = nextPool connectedA"
proof -
  have live: "await (getConnection envUp (trace connectedA) 0) = Some (Inr ())"
    by (simp add: envUp_def await_def)
  have p: "pool connectedA = Some 0"
    by (simp add: connectedA_def)
  from connect_same_target_reuses_pool [OF connect_initial_up scenario_configs(2)] p live
  have "connect envUp cfgA2 connectedA = Some (Inr (), emit (Release 0) (emit (GetConnection 0) connectedA))"
    by simp
  moreover have "emit (Release 0) (emit (GetConnection 0) connectedA) = reusedA"
    by (simp add: emit_def connectedA_def reusedA_def)
  ultimately show ?thesis
    using connect_initial_up scenario_configs(2) live
    by (simp add: reusedA_def connectedA_def)
qed

subsection \<open>A second connect to another target\<close>

text \<open>
  Claim C3 asks that \<^verbatim>\<open>connect(cfgA)\<close> followed by \<^verbatim>\<open>connect(cfgB)\<close> for another target
  closes the pool of \<open>cfgA\<close> before the pool of \<open>cfgB\<close> is opened, so that one pool is
  left. The method overwrites the field instead: at this input the trace has no
  \<^verbatim>\<open>end()\<close> of pool 0, and both pools are open afterwards.
\<close>

theorem connect_other_target_leaks_pool:
  "connect envUp cfgB connectedA = Some (Inr (), replacedAB) \<and>
   openPools (trace replacedAB) = [1, 0] \<and> EndPool 0 \<notin> set (trace replacedAB)"
  by (simp add: connect_def openPool_def envUp_def await_def Let_def startHeartbeat_def
      stopHeartbeat_def emit_def connectedA_def replacedAB_def HEARTBEAT_INTERVAL_def
      scenario_configs openPools_def)

subsection \<open>Pool and heartbeat timer\<close>




subsection \<open>Executing without a configuration\<close>

lemma executeLoop_absent:
  "pool s = None \<Longrightarrow> config s = None \<Longrightarrow>
   executeLoop env op retries i lastError s =
     Some (Inl (if i \<le> retries then notConnectedMsg
                else (case lastError of Some e \<Rightarrow> e | None \<Rightarrow> queryFailedMsg)), s)"
proof (induction env op retries i lastError s rule: executeLoop.induct)
  case (1 env op retries i lastError s)
  show ?case
  proof (cases "i \<le> retries")
    case False
    then show ?thesis
      by (simp add: executeLoop.simps [of env op retries i])
  next
    case True
    from "1.prems" have a: "attempt env op s = Some (Inl notConnectedMsg, s)"
      by (simp add: attempt_def ensureConnectionValid_def)
    from "1.prems" have rc: "recover env (i < retries) s = Some s"
      by (simp add: recover_def forceClose_def)
    from "1.IH" [OF True a refl refl notConnected_isConnectionError rc "1.prems"]
    have "executeLoop env op retries (i + 1) (Some notConnectedMsg) s = Some (Inl notConnectedMsg, s)"
      by simp
    with True a rc show ?thesis
      by (simp add: executeLoop.simps [of env op retries i] notConnected_isConnectionError)
  qed
qed

text \<open>
  Claim C4. When no configuration is stored (a new manager, or after \<^verbatim>\<open>disconnect\<close>),
  \<^verbatim>\<open>executeQueryWithRetry\<close> throws the "not connected" error and the state, trace
  included, is what it was: no pool was created, no connection acquired, no query
  sent and the query function was not called.
\<close>

theorem execute_without_config_fails_fast:
  assumes "reachable env s" and "config s = None" and "0 \<le> retries"
  shows "executeQueryWithRetry env op retries s = Some (Inl notConnectedMsg, s)"
proof -
  from reachable_settled [OF assms(1)] assms(2) have "pool s = None"
    by (auto simp: settled_def wired_def)
  with assms(2,3) show ?thesis
    by (simp add: executeQueryWithRetry_def executeLoop_absent)
qed

theorem execute_without_config_fails_fast_witness:
  "reachable envUp (disconnect connectedA) \<and> config (disconnect connectedA) = None \<and>
   execute envUp (\<lambda>tr p. Settles 5 (Inr (7::nat))) (disconnect connectedA) =
     Some (Inl notConnectedMsg, disconnect connectedA)"
proof -
  have r: "reachable envUp (disconnect connectedA)"
    by (rule r_disconnect [OF r_connect [OF r_initial connect_initial_up]])
  have c: "config (disconnect connectedA) = None"
    by (simp add: disconnect_def Let_def)
  from execute_without_config_fails_fast [OF r c, of 1 "\<lambda>tr p. Settles 5 (Inr (7::nat))"] r c
  show ?thesis
    by (simp add: execute_def)
qed

subsection \<open>Calls of the query function in the trace\<close>

lemma opCalls_Cons [simp]:
  "opCalls [] = 0"
  "opCalls (OpCall p # tr) = Suc (opCalls tr)"
  "opCalls (CreatePool p c # tr) = opCalls tr"
  "opCalls (GetConnection p # tr) = opCalls tr"
  "opCalls (Query p # tr) = opCalls tr"
  "opCalls (Release p # tr) = opCalls tr"
  "opCalls (EndPool p # tr) = opCalls tr"
  "opCalls (SetInterval t ms # tr) = opCalls tr"
  "opCalls (ClearInterval t # tr) = opCalls tr"
  "opCalls (Sleep ms # tr) = opCalls tr"
  by (simp_all add: opCalls_def)

lemma stopHeartbeat_opCalls [simp]: "opCalls (trace (stopHeartbeat s)) = opCalls (trace s)"
  by (simp add: stopHeartbeat_def split: option.splits)

lemma startHeartbeat_opCalls [simp]: "opCalls (trace (startHeartbeat s)) = opCalls (trace s)"
  by (simp add: startHeartbeat_def Let_def)

lemma closePool_opCalls: "closePool env s = Some s' \<Longrightarrow> opCalls (trace s') = opCalls (trace s)"
  by (auto simp: closePool_def split: option.splits dest!: endPoolAwait_fields)

lemma openPool_opCalls:
  "openPool env cfg s = Some (r, s') \<Longrightarrow> opCalls (trace s') = opCalls (trace s)"
  by (auto simp: openPool_def Let_def split: option.splits sum.splits dest!: closePool_opCalls)

lemma connect_opCalls:
  "connect env cfg s = Some (r, s') \<Longrightarrow> opCalls (trace s') = opCalls (trace s)"
  by (auto simp: connect_def Let_def split: option.splits sum.splits if_splits
      dest!: closePool_opCalls openPool_opCalls)

lemma probe_opCalls: "probe env p s = (r, s') \<Longrightarrow> opCalls (trace s') = opCalls (trace s)"
  by (auto simp: probe_def Let_def split: sum.splits)

lemma reconnect_opCalls:
  assumes "reconnect env s = Some (r, s')"
  shows "opCalls (trace s') = opCalls (trace s)"
proof -
  from assms obtain s1 where c: "closePool env (stopHeartbeat (s\<lparr>isReconnecting := True\<rparr>)) = Some s1"
    by (auto simp: reconnect_def split: option.splits)
  from closePool_opCalls [OF c] have s1: "opCalls (trace s1) = opCalls (trace s)"
    by simp
  show ?thesis
  proof (cases "config s1")
    case None
    with assms c s1 show ?thesis
      by (auto simp: reconnect_def Let_def split: option.splits)
  next
    case (Some cfg)
    with assms c obtain r0 s2 where k: "connect env cfg s1 = Some (r0, s2)"
      by (auto simp: reconnect_def split: option.splits)
    from assms c Some k s1 connect_opCalls [OF k] show ?thesis
      by (auto simp: reconnect_def Let_def split: sum.splits option.splits)
  qed
qed

lemma ensureConnectionValid_opCalls:
  assumes "ensureConnectionValid env s = Some (r, s')" and "\<not> isReconnecting s"
  shows "opCalls (trace s') = opCalls (trace s)"
  using assms(1)
proof (cases rule: ensureConnectionValid_cases)
  case absent
  then show ?thesis by simp
next
  case (alive p c u)
  from probe_opCalls [OF alive(3)] show ?thesis .
next
  case (waited p c e s1 q)
  with assms(2) show ?thesis by simp
next
  case (healed p c e s1)
  with assms(2) reconnect_opCalls [OF healed(4)] probe_opCalls [OF healed(3)] show ?thesis
    by simp
qed




subsection \<open>Errors of the query function\<close>

text \<open>
  Claim C2. When the query function, called on the validated pool, throws an error
  whose message is not classified as a connection error, \<^verbatim>\<open>executeQueryWithRetry\<close>
  rethrows that error: the state is the one after validation with the one call of the
  query function added, the pool is still in place (nothing was closed or reopened
  after the failure), and that call is the only one.
\<close>

theorem logic_error_not_retried:
  assumes "ensureConnectionValid env s = Some (Inr p, s1)"
    and "await (op (trace s1) p) = Some (Inl msg)"
    and "\<not> isConnectionError msg"
    and "0 \<le> retries"
  shows "executeQueryWithRetry env op retries s = Some (Inl msg, emit (OpCall p) s1) \<and>
    pool (emit (OpCall p) s1) = Some p \<and>
    (\<not> isReconnecting s \<longrightarrow> opCalls (trace (emit (OpCall p) s1)) = Suc (opCalls (trace s)))"
proof -
  from assms(1,2) have "attempt env op s = Some (Inl msg, emit (OpCall p) s1)"
    by (simp add: attempt_def)
  with assms(3,4) have "executeQueryWithRetry env op retries s = Some (Inl msg, emit (OpCall p) s1)"
    by (simp add: executeQueryWithRetry_def executeLoop.simps [of env op retries 0])
  moreover from ensureConnectionValid_result [OF assms(1)] have "pool (emit (OpCall p) s1) = Some p"
    by simp
  moreover from ensureConnectionValid_opCalls [OF assms(1)]
  have "\<not> isReconnecting s \<longrightarrow> opCalls (trace (emit (OpCall p) s1)) = Suc (opCalls (trace s))"
    by simp
  ultimately show ?thesis
    by blast
qed


lemma scenario_messages:
  "isConnectionError resetMsg" "\<not> isConnectionError duplicateMsg"
  by (simp_all add: isConnectionError_def str_includes_def resetMsg_def duplicateMsg_def
      lianjie_def ascii_def sublist_code(3))

lemma validate_connectedA: "ensureConnectionValid envUp connectedA = Some (Inr 0, validatedA)"
  by (simp add: ensureConnectionValid_def probe_def raceTimeout_def envUp_def Let_def emit_def
      connectedA_def validatedA_def)



theorem logic_error_not_retried_witness:
  "ensureConnectionValid envUp connectedA = Some (Inr 0, validatedA) \<and>
   \<not> isConnectionError duplicateMsg \<and>
   execute envUp opDuplicate connectedA = Some (Inl duplicateMsg, emit (OpCall 0) validatedA) \<and>
   opCalls (trace (emit (OpCall 0) validatedA)) = 1 \<and> pool (emit (OpCall 0) validatedA) = Some 0"
proof -
  have f: "await (opDuplicate (trace validatedA) 0) = Some (Inl duplicateMsg)"
    by (simp add: opDuplicate_def await_def)
  from logic_error_not_retried [where op = opDuplicate and retries = 1,
      OF validate_connectedA f scenario_messages(2)]
    validate_connectedA scenario_messages(2)
  show ?thesis
    by (simp add: execute_def connectedA_def)
qed


subsection \<open>Steps of a tick\<close>


lemma stopHeartbeat_trace: "set (trace s) \<subseteq> set (trace (stopHeartbeat s))"
  by (auto simp: stopHeartbeat_def split: option.splits)



subsection \<open>The heartbeat tick\<close>



subsection \<open>Waiting for another task's reconnection\<close>

lemma waitLoop_bound:
  "retries \<le> 20 \<Longrightarrow>
     fst (waitLoop env retries s) \<le> 20 \<and>
     (isReconnecting (snd (waitLoop env retries s)) \<longrightarrow> fst (waitLoop env retries s) = 20)"
proof (induction env retries s rule: waitLoop.induct)
  case (1 env retries s)
  show ?case
  proof (cases "isReconnecting s \<and> retries < 20")
    case True
    with "1.IH" show ?thesis
      by (simp add: waitLoop.simps [of env retries s])
  next
    case False
    with "1.prems" show ?thesis
      by (auto simp: waitLoop.simps [of env retries s])
  qed
qed

lemma set_trace_stopHeartbeat: "e \<in> set (trace s) \<Longrightarrow> e \<in> set (trace (stopHeartbeat s))"
  using stopHeartbeat_trace by blast

lemma closePool_trace:
  "closePool env s = Some s' \<Longrightarrow> nextPool s' = nextPool s \<and> set (trace s) \<subseteq> set (trace s')"
  by (auto simp: closePool_def split: option.splits dest!: endPoolAwait_fields)

lemma openPool_attempt:
  "openPool env cfg s = Some (r, s') \<Longrightarrow> CreatePool (nextPool s) cfg \<in> set (trace s')"
  by (auto simp: openPool_def Let_def startHeartbeat_def intro!: set_trace_stopHeartbeat
      split: option.splits sum.splits dest!: closePool_trace)

lemma reconnect_attempt:
  assumes "reconnect env s = Some (r, s')" and "config s = Some c"
  shows "CreatePool (nextPool s) c \<in> set (trace s')"
proof -
  from assms obtain s1 where c: "closePool env (stopHeartbeat (s\<lparr>isReconnecting := True\<rparr>)) = Some s1"
    by (auto simp: reconnect_def split: option.splits)
  from closePool_fields [OF c] closePool_trace [OF c] assms(2)
  have s1: "pool s1 = None" "config s1 = Some c" "nextPool s1 = nextPool s"
    by simp_all
  with assms c obtain r0 s2 where k: "openPool env c s1 = Some (r0, s2)"
    by (auto simp: reconnect_def connect_def split: option.splits)
  from openPool_attempt [OF k] s1 have "CreatePool (nextPool s) c \<in> set (trace s2)"
    by simp
  with assms c s1 k show ?thesis
    by (auto simp: reconnect_def connect_def Let_def split: option.splits sum.splits)
qed

text \<open>
  Claim C5 says that a caller of \<^verbatim>\<open>ensureConnectionValid\<close> that finds the flag set
  after its failed probe waits and then either returns the pool that exists or fails
  without a reconnection of its own. The second half is not what the method does
  (see \<open>gaveUpToo\<close>, where the waiting caller creates pool 2). As amended: the
  caller sleeps 100 ms while the flag is set, at most 20 times; if there are a pool
  and a configuration then, it returns that pool; otherwise it goes on to the
  reconnection block of the method, which, when a configuration is stored, creates a
  pool for it.
\<close>

theorem wait_then_reuse_or_reconnect:
  assumes "pool s = Some p" and "config s = Some c" and "probe env p s = (Inl e, s1)"
    and "isReconnecting s"
  shows "fst (waitLoop env 0 s1) \<le> 20 \<and>
    (isReconnecting (snd (waitLoop env 0 s1)) \<longrightarrow> fst (waitLoop env 0 s1) = 20) \<and>
    (pool (snd (waitLoop env 0 s1)) = Some q \<and> config (snd (waitLoop env 0 s1)) \<noteq> None \<longrightarrow>
       ensureConnectionValid env s = Some (Inr q, snd (waitLoop env 0 s1))) \<and>
    (pool (snd (waitLoop env 0 s1)) = None \<or> config (snd (waitLoop env 0 s1)) = None \<longrightarrow>
       ensureConnectionValid env s = reconnect env (snd (waitLoop env 0 s1))) \<and>
    (config (snd (waitLoop env 0 s1)) = Some c' \<and>
     reconnect env (snd (waitLoop env 0 s1)) = Some (r, s') \<longrightarrow>
       CreatePool (nextPool (snd (waitLoop env 0 s1))) c' \<in> set (trace s'))"
proof -
  let ?w = "snd (waitLoop env 0 s1)"
  from probe_fields [OF assms(3)] assms(4) have f: "isReconnecting s1"
    by simp
  have "pool ?w = Some q \<and> config ?w \<noteq> None \<longrightarrow> ensureConnectionValid env s = Some (Inr q, ?w)"
    using assms(1-3) f by (auto simp: ensureConnectionValid_def Let_def)
  moreover have "pool ?w = None \<or> config ?w = None \<longrightarrow> ensureConnectionValid env s = reconnect env ?w"
    using assms(1-3) f by (auto simp: ensureConnectionValid_def Let_def split: option.splits)
  moreover have "config ?w = Some c' \<and> reconnect env ?w = Some (r, s') \<longrightarrow>
       CreatePool (nextPool ?w) c' \<in> set (trace s')"
    using reconnect_attempt by blast
  ultimately show ?thesis
    using waitLoop_bound [of 0 env s1] by simp
qed

lemma wait_reconnectingA:
  "waitLoop envOtherFailed 0 (emit (GetConnection 0) reconnectingA) = (1, waitedA)"
  by (simp add: waitLoop.simps [of _ 0] waitLoop.simps [of _ "Suc 0"] envOtherFailed_def emit_def
      reconnectingA_def connectedA_def waitedA_def)

lemma reconnect_waitedA: "reconnect envOtherFailed waitedA = Some (Inl reconnectFailedMsg, gaveUpToo)"
  by (simp add: reconnect_def closePool_def endPoolAwait_def connect_def openPool_def await_def
      envOtherFailed_def Let_def emit_def stopHeartbeat_def waitedA_def gaveUpToo_def)

theorem waiting_caller_reconnects_counterexample:
  "isReconnecting reconnectingA \<and>
   probe envOtherFailed 0 reconnectingA = (Inl refusedMsg, emit (GetConnection 0) reconnectingA) \<and>
   waitLoop envOtherFailed 0 (emit (GetConnection 0) reconnectingA) = (1, waitedA) \<and>
   pool waitedA = None \<and>
   ensureConnectionValid envOtherFailed reconnectingA = Some (Inl reconnectFailedMsg, gaveUpToo) \<and>
   CreatePool 2 cfgA \<in> set (trace gaveUpToo) \<and> GetConnection 2 \<in> set (trace gaveUpToo)"
proof -
  have p: "probe envOtherFailed 0 reconnectingA = (Inl refusedMsg, emit (GetConnection 0) reconnectingA)"
    by (simp add: probe_def raceTimeout_def envOtherFailed_def Let_def)
  have f: "pool reconnectingA = Some 0" "config reconnectingA = Some cfgA" "isReconnecting reconnectingA"
    by (simp_all add: reconnectingA_def connectedA_def)
  have w: "pool waitedA = None"
    by (simp add: waitedA_def)
  from p f w wait_reconnectingA reconnect_waitedA
  have "ensureConnectionValid envOtherFailed reconnectingA = Some (Inl reconnectFailedMsg, gaveUpToo)"
    by (simp add: ensureConnectionValid_def Let_def)
  with p f w wait_reconnectingA show ?thesis
    by (simp add: gaveUpToo_def)
qed

theorem wait_then_reuse_or_reconnect_witness:
  "pool reconnectingA = Some 0 \<and> config reconnectingA = Some cfgA \<and> isReconnecting reconnectingA \<and>
   probe envOtherFailed 0 reconnectingA = (Inl refusedMsg, emit (GetConnection 0) reconnectingA) \<and>
   fst (waitLoop envOtherFailed 0 (emit (GetConnection 0) reconnectingA)) \<le> 20 \<and>
   ensureConnectionValid envOtherFailed reconnectingA = reconnect envOtherFailed waitedA \<and>
   CreatePool (nextPool waitedA) cfgA \<in> set (trace gaveUpToo)"
proof -
  have p: "probe envOtherFailed 0 reconnectingA = (Inl refusedMsg, emit (GetConnection 0) reconnectingA)"
    by (simp add: probe_def raceTimeout_def envOtherFailed_def Let_def)
  have f: "pool reconnectingA = Some 0" "config reconnectingA = Some cfgA" "isReconnecting reconnectingA"
    by (simp_all add: reconnectingA_def connectedA_def)
  have w: "pool waitedA = None" "config waitedA = Some cfgA"
    by (simp_all add: waitedA_def)
  from wait_then_reuse_or_reconnect [OF f(1,2) p f(3), where c' = cfgA
      and r = "Inl reconnectFailedMsg" and s' = gaveUpToo]
    wait_reconnectingA reconnect_waitedA w p f
  show ?thesis
    by simp
qed

subsection \<open>Which waits are bounded\<close>













end
